theory Spec2Isabelle
  imports Main "HOL-Library.Char_ord" "HOL-Library.List_Lexorder" "HOL-Library.Product_Lexorder"
begin

section \<open>Strings\<close>

text \<open>
  Python strings are modelled as \<^typ>\<open>string\<close>. The library predicates on characters
  (\<open>str.isspace\<close>, the regular expression classes \<open>\d\<close> and \<open>\s\<close>, \<open>str.lower\<close>) are
  modelled on the ASCII range; characters outside it are neither digits nor white space and
  are left alone by \<open>lower\<close>.
\<close>

definition isspace :: "char \<Rightarrow> bool" where
  "isspace c = (c \<in> set [CHR '' '', CHR 0x09, CHR 0x0A, CHR 0x0B, CHR 0x0C, CHR 0x0D,
                          CHR 0x1C, CHR 0x1D, CHR 0x1E, CHR 0x1F])"

definition isdigit :: "char \<Rightarrow> bool" where
  "isdigit c = (c \<in> set ''0123456789'')"

definition digit :: "char \<Rightarrow> nat" where
  "digit c = of_char c - 48"

definition in_range :: "char \<Rightarrow> char \<Rightarrow> char \<Rightarrow> bool" where
  "in_range lo hi c = (isdigit c \<and> digit lo \<le> digit c \<and> digit c \<le> digit hi)"

definition lower_char :: "char \<Rightarrow> char" where
  "lower_char c =
     (case map_of (zip ''ABCDEFGHIJKLMNOPQRSTUVWXYZ'' ''abcdefghijklmnopqrstuvwxyz'') c of
        Some l \<Rightarrow> l
      | None \<Rightarrow> c)"

definition lower :: "string \<Rightarrow> string" where
  "lower s = map lower_char s"

text \<open>\<open>str.strip()\<close>: remove leading and trailing white space.\<close>

definition strip :: "string \<Rightarrow> string" where
  "strip s = rev (dropWhile isspace (rev (dropWhile isspace s)))"

section \<open>Time-only parsing: \<open>_parse_time_flex\<close>\<close>

text \<open>The \<open>datetime.time\<close> object returned by \<open>datetime.strptime(s, fmt).time()\<close>.\<close>

record pytime =
  hour :: nat
  minute :: nat
  second :: nat

text \<open>
  \<open>datetime.strptime\<close> turns the format string into a regular expression, one group per
  directive, and matches it against the start of the data string with backtracking
  (\<open>re.IGNORECASE\<close>). A format is modelled as its list of directives; a white space character of
  the format stands for \<open>\s+\<close>.
\<close>

datatype directive = DH | DM | DS | DI | Dp | Lit char | WS

text \<open>The dictionary of groups found by the match.\<close>

record found =
  fH :: "nat option"
  fM :: "nat option"
  fS :: "nat option"
  fI :: "nat option"
  fp :: "bool option"

definition no_groups :: found where
  "no_groups = \<lparr>fH = None, fM = None, fS = None, fI = None, fp = None\<rparr>"

text \<open>
  One alternative of a numeric group: two characters satisfying \<open>p\<close> and \<open>q\<close>, or one
  character satisfying \<open>p\<close>. Each returns the list of its matches (at most one), with the
  number read and the rest of the input.
\<close>

definition two_chars :: "(char \<Rightarrow> bool) \<Rightarrow> (char \<Rightarrow> bool) \<Rightarrow> string \<Rightarrow> (nat \<times> string) list" where
  "two_chars p q s =
     (case s of a # b # r \<Rightarrow> (if p a \<and> q b then [(10 * digit a + digit b, r)] else [])
              | _ \<Rightarrow> [])"

definition one_char :: "(char \<Rightarrow> bool) \<Rightarrow> string \<Rightarrow> (nat \<times> string) list" where
  "one_char p s = (case s of a # r \<Rightarrow> (if p a then [(digit a, r)] else []) | _ \<Rightarrow> [])"

text \<open>\<open>%H\<close> is \<open>2[0-3]|[0-1]\d|\d\<close>, \<open>%M\<close> is \<open>[0-5]\d|\d\<close>, \<open>%S\<close> is \<open>6[0-1]|[0-5]\d|\d\<close>,
  \<open>%I\<close> is \<open>1[0-2]|0[1-9]|[1-9]\<close>, \<open>%p\<close> is \<open>am|pm\<close> (the names of the C and English locales);
  alternatives are tried from the left.\<close>

definition re_H :: "string \<Rightarrow> (nat \<times> string) list" where
  "re_H s = two_chars (\<lambda>c. c = CHR ''2'') (in_range CHR ''0'' CHR ''3'') s
          @ two_chars (in_range CHR ''0'' CHR ''1'') isdigit s
          @ one_char isdigit s"

definition re_M :: "string \<Rightarrow> (nat \<times> string) list" where
  "re_M s = two_chars (in_range CHR ''0'' CHR ''5'') isdigit s @ one_char isdigit s"

definition re_S :: "string \<Rightarrow> (nat \<times> string) list" where
  "re_S s = two_chars (\<lambda>c. c = CHR ''6'') (in_range CHR ''0'' CHR ''1'') s
          @ two_chars (in_range CHR ''0'' CHR ''5'') isdigit s
          @ one_char isdigit s"

definition re_I :: "string \<Rightarrow> (nat \<times> string) list" where
  "re_I s = two_chars (\<lambda>c. c = CHR ''1'') (in_range CHR ''0'' CHR ''2'') s
          @ two_chars (\<lambda>c. c = CHR ''0'') (in_range CHR ''1'' CHR ''9'') s
          @ one_char (in_range CHR ''1'' CHR ''9'') s"

text \<open>The result of \<open>%p\<close> is \<open>True\<close> for \<open>pm\<close>.\<close>

definition re_p :: "string \<Rightarrow> (bool \<times> string) list" where
  "re_p s =
     (case s of
        a # b # r \<Rightarrow>
          (if lower_char a = CHR ''a'' \<and> lower_char b = CHR ''m'' then [(False, r)] else [])
          @ (if lower_char a = CHR ''p'' \<and> lower_char b = CHR ''m'' then [(True, r)] else [])
      | _ \<Rightarrow> [])"

text \<open>\<open>\s+\<close> is greedy: the longest run of white space first, then shorter ones, never
  the empty one.\<close>

fun re_ws :: "string \<Rightarrow> string list" where
  "re_ws [] = []"
| "re_ws (c # cs) = (if isspace c then re_ws cs @ [cs] else [])"

text \<open>All matches of a format against the start of a string, in the order in which the
  backtracking matcher finds them.\<close>

fun re_match :: "directive list \<Rightarrow> found \<Rightarrow> string \<Rightarrow> (found \<times> string) list" where
  "re_match [] g s = [(g, s)]"
| "re_match (DH # ds) g s = concat (map (\<lambda>(n, r). re_match ds (g\<lparr>fH := Some n\<rparr>) r) (re_H s))"
| "re_match (DM # ds) g s = concat (map (\<lambda>(n, r). re_match ds (g\<lparr>fM := Some n\<rparr>) r) (re_M s))"
| "re_match (DS # ds) g s = concat (map (\<lambda>(n, r). re_match ds (g\<lparr>fS := Some n\<rparr>) r) (re_S s))"
| "re_match (DI # ds) g s = concat (map (\<lambda>(n, r). re_match ds (g\<lparr>fI := Some n\<rparr>) r) (re_I s))"
| "re_match (Dp # ds) g s = concat (map (\<lambda>(b, r). re_match ds (g\<lparr>fp := Some b\<rparr>) r) (re_p s))"
| "re_match (Lit c # ds) g s =
     (case s of a # r \<Rightarrow> (if a = c then re_match ds g r else []) | [] \<Rightarrow> [])"
| "re_match (WS # ds) g s = concat (map (re_match ds g) (re_ws s))"

text \<open>
  After the match \<open>_strptime\<close> reads the groups: \<open>%H\<close> gives the hour; \<open>%I\<close> gives the hour
  of a 12-hour clock, where 12 AM is 0 and PM adds 12 except at 12. Absent groups leave 0.
\<close>

definition hour_of :: "found \<Rightarrow> nat" where
  "hour_of g =
     (case fI g of
        Some h \<Rightarrow> (if fp g = Some True then (if h \<noteq> 12 then h + 12 else h)
                   else (if h = 12 then 0 else h))
      | None \<Rightarrow> (case fH g of Some h \<Rightarrow> h | None \<Rightarrow> 0))"

definition nat_or_0 :: "nat option \<Rightarrow> nat" where
  "nat_or_0 x = (case x of Some n \<Rightarrow> n | None \<Rightarrow> 0)"

text \<open>
  \<open>datetime.strptime(s, fmt).time()\<close>, with \<open>None\<close> for \<open>ValueError\<close>: no match, unconverted
  data after the first match, or a second of 60 or 61 (which the pattern of \<open>%S\<close> admits
  and the \<open>datetime\<close> constructor refuses).
\<close>

definition strptime_time :: "directive list \<Rightarrow> string \<Rightarrow> pytime option" where
  "strptime_time fmt s =
     (case re_match fmt no_groups s of
        [] \<Rightarrow> None
      | (g, rest) # _ \<Rightarrow>
          (if rest \<noteq> [] then None
           else if nat_or_0 (fS g) > 59 then None
           else Some \<lparr>hour = hour_of g, minute = nat_or_0 (fM g), second = nat_or_0 (fS g)\<rparr>))"

text \<open>The four formats of the source, in its order:
  \<open>"%H:%M:%S"\<close>, \<open>"%H:%M"\<close>, \<open>"%I:%M:%S %p"\<close>, \<open>"%I:%M %p"\<close>.\<close>

definition fmt_HMS :: "directive list" where
  "fmt_HMS = [DH, Lit CHR '':'', DM, Lit CHR '':'', DS]"

definition fmt_HM :: "directive list" where
  "fmt_HM = [DH, Lit CHR '':'', DM]"

definition fmt_IMSp :: "directive list" where
  "fmt_IMSp = [DI, Lit CHR '':'', DM, Lit CHR '':'', DS, WS, Dp]"

definition fmt_IMp :: "directive list" where
  "fmt_IMp = [DI, Lit CHR '':'', DM, WS, Dp]"

definition time_formats :: "directive list list" where
  "time_formats = [fmt_HMS, fmt_HM, fmt_IMSp, fmt_IMp]"

text \<open>The loop \<open>for fmt in (...): try: return ... except ValueError: continue\<close>.\<close>

fun try_formats :: "directive list list \<Rightarrow> string \<Rightarrow> pytime option" where
  "try_formats [] s = None"
| "try_formats (fmt # fmts) s =
     (case strptime_time fmt s of Some t \<Rightarrow> Some t | None \<Rightarrow> try_formats fmts s)"

definition parse_time_flex :: "string option \<Rightarrow> pytime option" where
  "parse_time_flex so =
     (case so of
        None \<Rightarrow> None
      | Some s0 \<Rightarrow> (let s = strip s0 in if s = [] then None else try_formats time_formats s))"

section \<open>The date pattern \<open>_DATE_RE\<close>\<close>

text \<open>
  \<open>(?:\d{4}[-/]\d{2}[-/]\d{2})|(?:\d{1,2}[-/]\d{1,2}[-/]\d{4})\<close>, searched anywhere in the
  string (\<open>Series.str.contains\<close>). Each piece maps an input to the rests it can leave.
\<close>

fun re_digits :: "nat \<Rightarrow> string \<Rightarrow> string list" where
  "re_digits 0 s = [s]"
| "re_digits (Suc n) [] = []"
| "re_digits (Suc n) (c # cs) = (if isdigit c then re_digits n cs else [])"

definition re_digits_1_2 :: "string \<Rightarrow> string list" where
  "re_digits_1_2 s = re_digits 2 s @ re_digits 1 s"

definition re_sep :: "string \<Rightarrow> string list" where
  "re_sep s = (case s of c # cs \<Rightarrow> (if c = CHR ''-'' \<or> c = CHR ''/'' then [cs] else []) | [] \<Rightarrow> [])"

definition re_seq :: "(string \<Rightarrow> string list) list \<Rightarrow> string \<Rightarrow> string list" where
  "re_seq ps s = foldl (\<lambda>rs p. concat (map p rs)) [s] ps"

definition date_re_match :: "string \<Rightarrow> bool" where
  "date_re_match s =
     (re_seq [re_digits 4, re_sep, re_digits 2, re_sep, re_digits 2] s \<noteq> []
      \<or> re_seq [re_digits_1_2, re_sep, re_digits_1_2, re_sep, re_digits 4] s \<noteq> [])"

fun date_re_search :: "string \<Rightarrow> bool" where
  "date_re_search [] = date_re_match []"
| "date_re_search (c # cs) = (date_re_match (c # cs) \<or> date_re_search cs)"

section \<open>Timestamps\<close>

text \<open>
  A \<open>datetime64[ns]\<close> value is the number of nanoseconds since the epoch, an \<^typ>\<open>int\<close>;
  \<open>NaT\<close> is \<^const>\<open>None\<close>. The 64-bit range of the column type (years 1677 to 2262) is not
  modelled.
\<close>

type_synonym timestamp = "int option"

definition day_ns :: int where
  "day_ns = 86400 * 1000000000"

text \<open>\<open>Series.dt.normalize()\<close>: set the time of day to midnight.\<close>

definition dt_normalize :: "timestamp \<Rightarrow> timestamp" where
  "dt_normalize t = map_option (\<lambda>x. x - x mod day_ns) t"

text \<open>\<open>timedelta(hours=t.hour, minutes=t.minute, seconds=t.second)\<close>, in nanoseconds.\<close>

definition timedelta :: "pytime \<Rightarrow> int" where
  "timedelta t = (int (hour t) * 3600 + int (minute t) * 60 + int (second t)) * 1000000000"

definition ts_add :: "timestamp \<Rightarrow> int \<Rightarrow> timestamp" where
  "ts_add t d = map_option (\<lambda>x. x + d) t"

text \<open>
  \<open>pandas.to_datetime\<close> is a library function; the pipeline takes it as a parameter. It is
  applied to a whole column, and what it makes of one string may depend on the column (the
  format can be inferred from the first value), so the parameter receives the column and the
  string. A string becomes a timestamp, or \<open>NaT\<close> (a null string such as the empty one), or
  is refused: with \<open>errors="raise"\<close> a refused string raises, with \<open>errors="coerce"\<close> it
  becomes \<open>NaT\<close>.
\<close>

datatype parsed = Timestamp int | NaT | Unparseable

type_synonym to_datetime = "string list \<Rightarrow> string \<Rightarrow> parsed"

definition coerce :: "parsed \<Rightarrow> timestamp" where
  "coerce p = (case p of Timestamp t \<Rightarrow> Some t | NaT \<Rightarrow> None | Unparseable \<Rightarrow> None)"

section \<open>Rows and frames\<close>

text \<open>
  A row of the data frame. The types of \<open>flight_dt\<close> and \<open>lastupdt\<close> change along the
  pipeline: both are strings after reading; \<open>flight_dt\<close> becomes a timestamp in step 3,
  \<open>lastupdt\<close> a string or \<open>pd.NA\<close> in step 4, and a timestamp in the result.
\<close>

record ('d, 'u) row =
  flightkey :: string
  flightnum :: string
  flight_dt :: 'd
  orig_arpt :: string
  dest_arpt :: string
  flightstatus :: string
  lastupdt :: 'u
  carrier_code :: string

definition set_flight_dt :: "'e \<Rightarrow> ('d, 'u) row \<Rightarrow> ('e, 'u) row" where
  "set_flight_dt v r =
     \<lparr>flightkey = flightkey r, flightnum = flightnum r, flight_dt = v, orig_arpt = orig_arpt r,
      dest_arpt = dest_arpt r, flightstatus = flightstatus r, lastupdt = lastupdt r,
      carrier_code = carrier_code r\<rparr>"

definition set_lastupdt :: "'v \<Rightarrow> ('d, 'u) row \<Rightarrow> ('d, 'v) row" where
  "set_lastupdt v r =
     \<lparr>flightkey = flightkey r, flightnum = flightnum r, flight_dt = flight_dt r,
      orig_arpt = orig_arpt r, dest_arpt = dest_arpt r, flightstatus = flightstatus r,
      lastupdt = v, carrier_code = carrier_code r\<rparr>"

text \<open>
  What \<open>pd.read_csv\<close> returns: the column names and the data rows. Every cell is a string
  (\<open>keep_default_na=False\<close>; for the columns whose type \<open>read_csv\<close> infers, the string that
  \<open>astype(str)\<close> gives), and \<open>carrier_code\<close> is the empty string where the table has no
  such column. A frame is a list of rows, each with its index label; the labels given by
  \<open>read_csv\<close> are the positions \<open>0, 1, ...\<close> and stay with the rows until \<open>reset_index\<close>.
\<close>

record table =
  columns :: "string list"
  rows :: "(string, string) row list"

type_synonym 'r frame = "(nat \<times> 'r) list"

record out_table =
  out_columns :: "string list"
  out_rows :: "(timestamp, timestamp) row list"

datatype error =
    MissingColumns "string list"
  | DateParseError
  | BlankLastupdt
  | UnparseableLastupdt "string list"
  | AttributeError
  | IndexingError

section \<open>Steps 1 to 4: load, validate, normalise the date, clean the update field\<close>

text \<open>Lines 49 to 63. With every cell a string, \<open>dropna(how="all")\<close> removes nothing.\<close>

definition load :: "table \<Rightarrow> (string, string) row frame" where
  "load t =
     (let df = enumerate 0 (rows t)
      in if ''flightkey'' \<in> set (columns t)
         then filter (\<lambda>(i, r). let fk = strip (flightkey r)
                                in fk \<noteq> '''' \<and> lower fk \<noteq> ''flightkey'') df
         else df)"

definition required :: "string list" where
  "required = [''flightkey'', ''flightnum'', ''flight_dt'', ''orig_arpt'', ''dest_arpt'',
               ''flightstatus'', ''lastupdt'']"

definition missing_cols :: "table \<Rightarrow> string list" where
  "missing_cols t = filter (\<lambda>c. c \<notin> set (columns t)) required"

text \<open>Line 72: \<open>pd.to_datetime(df["flight_dt"], errors="raise").dt.normalize()\<close>.\<close>

definition normalize_flight_dt ::
  "to_datetime \<Rightarrow> (string, string) row frame \<Rightarrow> error + (timestamp, string) row frame" where
  "normalize_flight_dt to_dt df =
     (let series = map (\<lambda>(i, r). flight_dt r) df
      in if list_ex (\<lambda>s. to_dt series s = Unparseable) series then Inl DateParseError
         else Inr (map (\<lambda>(i, r). (i, set_flight_dt (dt_normalize (coerce (to_dt series (flight_dt r)))) r)) df))"

text \<open>Line 75 and 76.\<close>

definition clean_lastupdt :: "('d, string) row frame \<Rightarrow> ('d, string) row frame" where
  "clean_lastupdt df = map (\<lambda>(i, r). (i, r\<lparr>lastupdt := strip (lastupdt r)\<rparr>)) df"

definition blank_tokens :: "string list" where
  "blank_tokens = ['''', ''NA'', ''N/A'', ''null'', ''None'']"

definition blank_like :: "('d, string) row \<Rightarrow> bool" where
  "blank_like r = (lastupdt r \<in> set blank_tokens)"

text \<open>Lines 79 to 87: the policy for blank values. Any other policy string falls through.\<close>

definition handle_blanks ::
  "string \<Rightarrow> ('d, string) row frame \<Rightarrow> error + ('d, string) row frame" where
  "handle_blanks on_missing df =
     (if on_missing = ''midnight''
      then Inr (map (\<lambda>(i, r). (i, if blank_like r then r\<lparr>lastupdt := ''00:00:00''\<rparr> else r)) df)
      else if on_missing = ''drop''
      then Inr (filter (\<lambda>(i, r). \<not> blank_like r) df)
      else if on_missing = ''error''
      then (if list_ex (\<lambda>(i, r). blank_like r) df then Inl BlankLastupdt else Inr df)
      else Inr df)"

text \<open>Line 90: the blank values that are left become \<open>pd.NA\<close>.\<close>

definition mark_na :: "('d, string) row frame \<Rightarrow> ('d, string option) row frame" where
  "mark_na df =
     map (\<lambda>(i, r). (i, set_lastupdt (if blank_like r then None else Some (lastupdt r)) r)) df"

text \<open>Steps 1 to 4 together; the column check of step 2 comes before the date is parsed.\<close>

definition prepared ::
  "to_datetime \<Rightarrow> table \<Rightarrow> string \<Rightarrow> error + (timestamp, string option) row frame" where
  "prepared to_dt t on_missing =
     (let df = load t
      in if missing_cols t \<noteq> [] then Inl (MissingColumns (missing_cols t))
         else case normalize_flight_dt to_dt df of
                Inl e \<Rightarrow> Inl e
              | Inr df \<Rightarrow>
                  (case handle_blanks on_missing (clean_lastupdt df) of
                     Inl e \<Rightarrow> Inl e
                   | Inr df \<Rightarrow> Inr (mark_na df)))"

section \<open>Steps 5 to 8: the resolver\<close>

text \<open>Lines 94 and 95 (and 121, 122): the two masks, row by row.\<close>

definition has_date :: "('d, string option) row \<Rightarrow> bool" where
  "has_date r = (case lastupdt r of None \<Rightarrow> False | Some s \<Rightarrow> date_re_search s)"

definition no_date :: "('d, string option) row \<Rightarrow> bool" where
  "no_date r = (\<not> has_date r \<and> lastupdt r \<noteq> None)"

text \<open>The column \<open>df.loc[has_date, "lastupdt"]\<close> handed to \<open>pd.to_datetime\<close>.\<close>

definition dated_values :: "('d, string option) row frame \<Rightarrow> string list" where
  "dated_values df =
     concat (map (\<lambda>(i, r). case lastupdt r of
                              Some s \<Rightarrow> (if date_re_search s then [s] else [])
                            | None \<Rightarrow> []) df)"

text \<open>Lines 98 to 100 (and 123 to 125): \<open>last_with_date\<close> at a row of the frame.\<close>

definition last_with_date ::
  "to_datetime \<Rightarrow> ('d, string option) row frame \<Rightarrow> ('d, string option) row \<Rightarrow> timestamp" where
  "last_with_date to_dt df r =
     (case lastupdt r of
        Some s \<Rightarrow> (if date_re_search s then coerce (to_dt (dated_values df) s) else None)
      | None \<Rightarrow> None)"

text \<open>Line 105 (and 126): \<open>times\<close> at a time-only row; line 108: \<open>bad_mask\<close>.\<close>

definition times_of :: "('d, string option) row \<Rightarrow> pytime option" where
  "times_of r = parse_time_flex (lastupdt r)"

definition bad_rows :: "('d, string option) row frame \<Rightarrow> ('d, string option) row frame" where
  "bad_rows df = filter (\<lambda>(i, r). no_date r \<and> times_of r = None) df"

text \<open>\<open>Series.unique()\<close> keeps the first occurrence of every value, in order.\<close>

definition unique :: "'a list \<Rightarrow> 'a list" where
  "unique xs = rev (remdups (rev xs))"

definition upd_str :: "('d, string option) row \<Rightarrow> string" where
  "upd_str r = (case lastupdt r of Some s \<Rightarrow> s | None \<Rightarrow> ''<NA>'')"

text \<open>Line 110.\<close>

definition bad_vals :: "('d, string option) row frame \<Rightarrow> string list" where
  "bad_vals df = take 5 (unique (map (\<lambda>(i, r). upd_str r) (bad_rows df)))"

text \<open>Line 114: \<open>times.loc[bad_mask] = time(0, 0, 0)\<close>.\<close>

definition midnight_time :: pytime where
  "midnight_time = \<lparr>hour = 0, minute = 0, second = 0\<rparr>"

definition times_midnight :: "('d, string option) row \<Rightarrow> pytime option" where
  "times_midnight r = (case times_of r of None \<Rightarrow> Some midnight_time | Some t \<Rightarrow> Some t)"

text \<open>
  Indexing a series with a boolean series: pandas aligns the mask with the index of the
  series, and raises \<open>IndexingError\<close> unless the two indexes are equal or every label of the
  series has a place in the mask.
\<close>

definition check_bool_indexer :: "nat list \<Rightarrow> nat list \<Rightarrow> bool" where
  "check_bool_indexer index key_index =
     (key_index = index \<or> list_all (\<lambda>l. l \<in> set key_index) index)"

text \<open>
  Lines 128 to 135, for the frame \<open>df\<close> and its \<open>times\<close>. \<open>last_from_time\<close> was created at
  line 103 on the index \<open>lft_index\<close>, and is indexed by the mask \<open>no_date\<close> of \<open>df\<close> at line 130
  (if there is a time-only row) and at line 135. The lambda of line 129 reads \<open>t.hour\<close>, an
  \<open>AttributeError\<close> where \<open>t\<close> is \<open>None\<close>. The result carries the new column
  \<open>lastupdt_parsed\<close> as a third component.
\<close>

definition last_from_time ::
  "((timestamp, string option) row \<Rightarrow> pytime option) \<Rightarrow> (timestamp, string option) row \<Rightarrow> timestamp" where
  "last_from_time tm r =
     (case tm r of Some t \<Rightarrow> ts_add (flight_dt r) (timedelta t) | None \<Rightarrow> None)"

type_synonym batch = "(nat \<times> (timestamp, string option) row \<times> timestamp) list"

definition attach ::
  "to_datetime \<Rightarrow> nat list \<Rightarrow> ((timestamp, string option) row \<Rightarrow> pytime option)
     \<Rightarrow> (timestamp, string option) row frame \<Rightarrow> error + batch" where
  "attach to_dt lft_index tm df =
     (if list_ex (\<lambda>(i, r). no_date r \<and> tm r = None) df then Inl AttributeError
      else if \<not> check_bool_indexer lft_index (map fst df) then Inl IndexingError
      else Inr (map (\<lambda>(i, r). (i, r, if no_date r then last_from_time tm r
                                       else last_with_date to_dt df r)) df))"

text \<open>Lines 94 to 135. In the last branch the rows of \<open>drop_idx\<close> leave the frame, and the
  masks, \<open>last_with_date\<close> and \<open>times\<close> are computed again on the smaller frame, but
  \<open>last_from_time\<close> keeps the index it was created on.\<close>

definition resolve ::
  "to_datetime \<Rightarrow> string \<Rightarrow> (timestamp, string option) row frame \<Rightarrow> error + batch" where
  "resolve to_dt on_missing df =
     (let lft_index = map fst df
      in if bad_rows df = [] then attach to_dt lft_index times_of df
         else if on_missing = ''error'' then Inl (UnparseableLastupdt (bad_vals df))
         else if on_missing = ''midnight'' then attach to_dt lft_index times_midnight df
         else let drop_idx = map fst (bad_rows df);
                  df' = filter (\<lambda>(i, r). i \<notin> set drop_idx) df
              in attach to_dt lft_index times_of df')"

text \<open>The frame that enters step 9.\<close>

definition resolved_batch :: "to_datetime \<Rightarrow> table \<Rightarrow> string \<Rightarrow> error + batch" where
  "resolved_batch to_dt t on_missing =
     (case prepared to_dt t on_missing of
        Inl e \<Rightarrow> Inl e
      | Inr df \<Rightarrow> resolve to_dt on_missing df)"

section \<open>Steps 9 and 10: the reducer and the projector\<close>

text \<open>
  Line 138: \<open>sort_values(["flightkey", "lastupdt_parsed"], ascending=[True, False])\<close>. The
  sort on several columns is stable; in the descending column \<open>NaT\<close> still comes last.
\<close>

definition sort_rank :: "timestamp \<Rightarrow> nat \<times> int" where
  "sort_rank p = (case p of None \<Rightarrow> (1, 0) | Some t \<Rightarrow> (0, - t))"

definition sort_values :: "batch \<Rightarrow> batch" where
  "sort_values df = sort_key (\<lambda>(i, r, p). (flightkey r, sort_rank p)) df"

text \<open>Line 139: \<open>drop_duplicates(subset=["flightkey"], keep="first")\<close>.\<close>

fun drop_duplicates :: "string list \<Rightarrow> batch \<Rightarrow> batch" where
  "drop_duplicates seen [] = []"
| "drop_duplicates seen ((i, r, p) # df) =
     (if flightkey r \<in> set seen then drop_duplicates seen df
      else (i, r, p) # drop_duplicates (flightkey r # seen) df)"

definition keep_latest :: "batch \<Rightarrow> batch" where
  "keep_latest df = drop_duplicates [] (sort_values df)"

text \<open>Lines 142 to 145: the columns of the result, \<open>lastupdt_parsed\<close> renamed to
  \<open>lastupdt\<close>, the index reset.\<close>

definition project :: "string list \<Rightarrow> batch \<Rightarrow> out_table" where
  "project cs latest =
     \<lparr>out_columns = [''flightkey'', ''flightnum'', ''flight_dt'', ''orig_arpt'', ''dest_arpt'',
                      ''flightstatus'', ''lastupdt'']
                     @ (if ''carrier_code'' \<in> set cs then [''carrier_code''] else []),
      out_rows = map (\<lambda>(i, r, p). set_lastupdt p r) latest\<rparr>"

definition most_recent_flights_csv :: "to_datetime \<Rightarrow> table \<Rightarrow> string \<Rightarrow> error + out_table" where
  "most_recent_flights_csv to_dt t on_missing =
     (case resolved_batch to_dt t on_missing of
        Inl e \<Rightarrow> Inl e
      | Inr df \<Rightarrow> Inr (project (columns t) (keep_latest df)))"

section \<open>A concrete \<open>to_datetime\<close> for evaluation\<close>

text \<open>
  The theorems below hold for every \<open>to_datetime\<close>. To run the pipeline on concrete tables,
  \<open>iso_to_datetime\<close> reads the strings \<open>YYYY-MM-DD\<close> and \<open>YYYY-MM-DD HH:MM:SS\<close> of a valid
  calendar date and clock time, takes the empty string to \<open>NaT\<close>, and refuses the rest; the
  concrete tables below contain no other string in a column that is parsed.
\<close>

definition days_from_civil :: "int \<Rightarrow> int \<Rightarrow> int \<Rightarrow> int" where
  "days_from_civil y m d =
     (let y' = (if m \<le> 2 then y - 1 else y);
          era = y' div 400;
          yoe = y' - era * 400;
          doy = (153 * (if m > 2 then m - 3 else m + 9) + 2) div 5 + d - 1;
          doe = yoe * 365 + yoe div 4 - yoe div 100 + doy
      in era * 146097 + doe - 719468)"

definition days_in_month :: "int \<Rightarrow> int \<Rightarrow> int" where
  "days_in_month y m =
     (if m = 2 then (if y mod 4 = 0 \<and> (y mod 100 \<noteq> 0 \<or> y mod 400 = 0) then 29 else 28)
      else if m \<in> {4, 6, 9, 11} then 30 else 31)"

definition num :: "string \<Rightarrow> int" where
  "num s = foldl (\<lambda>n c. 10 * n + int (digit c)) 0 s"

definition iso_date :: "string \<Rightarrow> int option" where
  "iso_date s =
     (if length s = 10 \<and> list_all isdigit (take 4 s) \<and> s ! 4 = CHR ''-''
         \<and> list_all isdigit (take 2 (drop 5 s)) \<and> s ! 7 = CHR ''-''
         \<and> list_all isdigit (drop 8 s)
      then let y = num (take 4 s); m = num (take 2 (drop 5 s)); d = num (drop 8 s)
           in if 1 \<le> m \<and> m \<le> 12 \<and> 1 \<le> d \<and> d \<le> days_in_month y m
              then Some (days_from_civil y m d * day_ns) else None
      else None)"

definition iso_clock :: "string \<Rightarrow> int option" where
  "iso_clock s =
     (if length s = 8 \<and> list_all isdigit (take 2 s) \<and> s ! 2 = CHR '':''
         \<and> list_all isdigit (take 2 (drop 3 s)) \<and> s ! 5 = CHR '':''
         \<and> list_all isdigit (drop 6 s)
      then let h = num (take 2 s); m = num (take 2 (drop 3 s)); sec = num (drop 6 s)
           in if h < 24 \<and> m < 60 \<and> sec < 60
              then Some ((h * 3600 + m * 60 + sec) * 1000000000) else None
      else None)"

definition iso_to_datetime :: to_datetime where
  "iso_to_datetime series s =
     (if s = [] then NaT
      else if length s = 10 then (case iso_date s of Some d \<Rightarrow> Timestamp d | None \<Rightarrow> Unparseable)
      else if length s = 19 \<and> s ! 10 = CHR '' ''
      then (case (iso_date (take 10 s), iso_clock (drop 11 s)) of
              (Some d, Some c) \<Rightarrow> Timestamp (d + c)
            | _ \<Rightarrow> Unparseable)
      else Unparseable)"

section \<open>Auxiliary definitions\<close>

text \<open>The column \<open>df["flight_dt"]\<close> handed to \<open>pd.to_datetime\<close> at line 72.\<close>

definition flight_dates :: "table \<Rightarrow> string list" where
  "flight_dates t = map (\<lambda>(i, r). flight_dt r) (load t)"


text \<open>What steps 3 and 4 make of one row that they keep (see \<open>prepared_Inr\<close> below).\<close>

definition prep_row ::
  "to_datetime \<Rightarrow> table \<Rightarrow> string \<Rightarrow> (string, string) row \<Rightarrow> (timestamp, string option) row" where
  "prep_row to_dt t on_missing raw =
     (let u = strip (lastupdt raw);
          u' = (if on_missing = ''midnight'' \<and> u \<in> set blank_tokens then ''00:00:00'' else u)
      in set_lastupdt (if u' \<in> set blank_tokens then None else Some u')
           (set_flight_dt (dt_normalize (coerce (to_dt (flight_dates t) (flight_dt raw)))) raw))"


text \<open>The ranges of the groups that the patterns of \<open>%H\<close>, \<open>%M\<close> and \<open>%I\<close> can read.\<close>

definition groups_ok :: "found \<Rightarrow> bool" where
  "groups_ok g = ((\<forall>h. fH g = Some h \<longrightarrow> h < 24) \<and> (\<forall>m. fM g = Some m \<longrightarrow> m < 60)
                  \<and> (\<forall>h. fI g = Some h \<longrightarrow> 1 \<le> h \<and> h \<le> 12))"


text \<open>The two sort keys of line 138 at a row of the batch, and the first of them alone.\<close>

definition batch_key :: "nat \<times> (timestamp, string option) row \<times> timestamp \<Rightarrow> string" where
  "batch_key x = (case x of (i, r, p) \<Rightarrow> flightkey r)"

definition sort_by :: "nat \<times> (timestamp, string option) row \<times> timestamp \<Rightarrow> string \<times> nat \<times> int" where
  "sort_by x = (case x of (i, r, p) \<Rightarrow> (flightkey r, sort_rank p))"

section \<open>Example tables\<close>

text \<open>A line of a CSV file with the seven required columns.\<close>

definition data_row ::
  "string \<Rightarrow> string \<Rightarrow> string \<Rightarrow> string \<Rightarrow> string \<Rightarrow> string \<Rightarrow> string \<Rightarrow> (string, string) row" where
  "data_row k n d a b st u =
     \<lparr>flightkey = k, flightnum = n, flight_dt = d, orig_arpt = a, dest_arpt = b,
      flightstatus = st, lastupdt = u, carrier_code = ''''\<rparr>"

text \<open>The tables of \<open>tests/task2_test.py\<close>.\<close>

definition ex_full :: table where
  "ex_full =
     \<lparr>columns = required,
      rows = [data_row ''K1'' ''100'' ''2019-01-01'' ''ATL'' ''TPA'' ''Boarding'' ''2019-01-01 19:48:00'',
              data_row ''K1'' ''100'' ''2019-01-01'' ''ATL'' ''TPA'' ''In'' ''2019-01-01 19:49:00'',
              data_row ''K2'' ''200'' ''2019-01-02'' ''ATL'' ''DFW'' ''Boarding'' ''2019-01-02 10:00:00'']\<rparr>"

definition ex_time_only :: table where
  "ex_time_only =
     \<lparr>columns = required,
      rows = [data_row ''K3'' ''300'' ''2019-01-03'' ''ATL'' ''ORD'' ''Boarding'' ''07:30:00 PM'',
              data_row ''K3'' ''300'' ''2019-01-03'' ''ATL'' ''ORD'' ''In'' ''08:30:00 PM'']\<rparr>"



text \<open>An update field with the shape of a date that is no date (month 13), and a good one.\<close>

definition ex_bad_date :: table where
  "ex_bad_date =
     \<lparr>columns = required,
      rows = [data_row ''K7'' ''700'' ''2019-01-07'' ''ATL'' ''SEA'' ''Boarding'' ''2019-13-45 10:00:00'',
              data_row ''K2'' ''200'' ''2019-01-02'' ''ATL'' ''DFW'' ''Boarding'' ''2019-01-02 10:00:00'']\<rparr>"


text \<open>Two rows of one key with the same instant, a later key first in the file, and a key
  whose only row is blank.\<close>

definition ex_ties :: table where
  "ex_ties =
     \<lparr>columns = required,
      rows = [data_row ''K2'' ''200'' ''2019-01-02'' ''ATL'' ''DFW'' ''Boarding'' ''10:00'',
              data_row ''K1'' ''100'' ''2019-01-01'' ''ATL'' ''TPA'' ''Boarding'' ''19:48:00'',
              data_row ''K1'' ''100'' ''2019-01-01'' ''ATL'' ''TPA'' ''In'' ''2019-01-01 19:48:00'',
              data_row ''K1'' ''100'' ''2019-01-01'' ''ATL'' ''TPA'' ''Out'' ''19:00:00'',
              data_row ''K4'' ''400'' ''2019-01-04'' ''ATL'' ''SEA'' ''Boarding'' '''']\<rparr>"


section \<open>The time parser\<close>





subsection \<open>The range of a parsed time\<close>

lemma isdigit_le9: "isdigit c \<Longrightarrow> digit c \<le> 9"
  by (auto simp: isdigit_def digit_def)

lemma in_range_bounds: "in_range lo hi c \<Longrightarrow> digit lo \<le> digit c \<and> digit c \<le> digit hi"
  by (simp add: in_range_def)

lemma digit_literals [simp]:
  "digit CHR ''0'' = 0" "digit CHR ''1'' = 1" "digit CHR ''2'' = 2" "digit CHR ''3'' = 3"
  "digit CHR ''5'' = 5" "digit CHR ''6'' = 6" "digit CHR ''9'' = 9"
  by (simp_all add: digit_def)

lemma two_chars_elem:
  "(n, r) \<in> set (two_chars p q s) \<Longrightarrow> \<exists>a b. s = a # b # r \<and> p a \<and> q b \<and> n = 10 * digit a + digit b"
  by (auto simp: two_chars_def split: list.splits if_splits)

lemma one_char_elem:
  "(n, r) \<in> set (one_char p s) \<Longrightarrow> \<exists>a. s = a # r \<and> p a \<and> n = digit a"
  by (auto simp: one_char_def split: list.splits if_splits)

lemma re_H_bound: "(n, r) \<in> set (re_H s) \<Longrightarrow> n < 24"
  by (auto simp: re_H_def dest!: two_chars_elem one_char_elem in_range_bounds isdigit_le9)

lemma re_M_bound: "(n, r) \<in> set (re_M s) \<Longrightarrow> n < 60"
  by (auto simp: re_M_def dest!: two_chars_elem one_char_elem in_range_bounds isdigit_le9)

lemma re_I_bound: "(n, r) \<in> set (re_I s) \<Longrightarrow> 1 \<le> n \<and> n \<le> 12"
  by (auto simp: re_I_def dest!: two_chars_elem one_char_elem in_range_bounds isdigit_le9)

lemma re_match_groups_ok:
  "(g', r) \<in> set (re_match ds g s) \<Longrightarrow> groups_ok g \<Longrightarrow> groups_ok g'"
proof (induction ds g s rule: re_match.induct)
  case (1 g s)
  then show ?case by simp
next
  case (2 ds g s)
  then obtain n r' where "(n, r') \<in> set (re_H s)" "(g', r) \<in> set (re_match ds (g\<lparr>fH := Some n\<rparr>) r')"
    by auto
  moreover from this(1) "2.prems"(2) have "groups_ok (g\<lparr>fH := Some n\<rparr>)"
    by (auto simp: groups_ok_def dest: re_H_bound)
  ultimately show ?case using "2.IH" by blast
next
  case (3 ds g s)
  then obtain n r' where "(n, r') \<in> set (re_M s)" "(g', r) \<in> set (re_match ds (g\<lparr>fM := Some n\<rparr>) r')"
    by auto
  moreover from this(1) "3.prems"(2) have "groups_ok (g\<lparr>fM := Some n\<rparr>)"
    by (auto simp: groups_ok_def dest: re_M_bound)
  ultimately show ?case using "3.IH" by blast
next
  case (4 ds g s)
  then obtain n r' where "(n, r') \<in> set (re_S s)" "(g', r) \<in> set (re_match ds (g\<lparr>fS := Some n\<rparr>) r')"
    by auto
  moreover from "4.prems"(2) have "groups_ok (g\<lparr>fS := Some n\<rparr>)"
    by (auto simp: groups_ok_def)
  ultimately show ?case using "4.IH" by blast
next
  case (5 ds g s)
  then obtain n r' where "(n, r') \<in> set (re_I s)" "(g', r) \<in> set (re_match ds (g\<lparr>fI := Some n\<rparr>) r')"
    by auto
  moreover from this(1) "5.prems"(2) have "groups_ok (g\<lparr>fI := Some n\<rparr>)"
    by (auto simp: groups_ok_def dest: re_I_bound)
  ultimately show ?case using "5.IH" by blast
next
  case (6 ds g s)
  then obtain n r' where "(n, r') \<in> set (re_p s)" "(g', r) \<in> set (re_match ds (g\<lparr>fp := Some n\<rparr>) r')"
    by auto
  moreover from "6.prems"(2) have "groups_ok (g\<lparr>fp := Some n\<rparr>)"
    by (auto simp: groups_ok_def)
  ultimately show ?case using "6.IH" by blast
next
  case (7 c ds g s)
  then show ?case by (auto split: list.splits if_splits)
next
  case (8 ds g s)
  then show ?case by auto
qed

lemma strptime_time_bounds:
  assumes "strptime_time fmt s = Some tm"
  shows "hour tm < 24 \<and> minute tm < 60 \<and> second tm < 60"
proof -
  from assms obtain g ms where
    ms: "re_match fmt no_groups s = (g, []) # ms" and
    sec: "\<not> nat_or_0 (fS g) > 59" and
    tm: "tm = \<lparr>hour = hour_of g, minute = nat_or_0 (fM g), second = nat_or_0 (fS g)\<rparr>"
    by (fastforce simp: strptime_time_def split: list.splits if_splits)
  from ms have m: "(g, []) \<in> set (re_match fmt no_groups s)" by simp
  have "groups_ok no_groups" by (simp add: groups_ok_def no_groups_def)
  from re_match_groups_ok [OF m this] have ok: "groups_ok g" .
  then have "hour_of g < 24"
    by (auto simp: hour_of_def groups_ok_def split: option.splits)
  moreover from ok have "nat_or_0 (fM g) < 60"
    by (auto simp: nat_or_0_def groups_ok_def split: option.splits)
  ultimately show ?thesis using sec tm by simp
qed

lemma try_formats_bounds:
  "try_formats fs s = Some tm \<Longrightarrow> hour tm < 24 \<and> minute tm < 60 \<and> second tm < 60"
  by (induction fs) (auto split: option.splits dest: strptime_time_bounds)

lemma parse_time_flex_bounds:
  "parse_time_flex so = Some tm \<Longrightarrow> hour tm < 24 \<and> minute tm < 60 \<and> second tm < 60"
  by (auto simp: parse_time_flex_def Let_def split: option.splits if_splits dest: try_formats_bounds)

lemma timedelta_range:
  assumes "hour tm < 24" "minute tm < 60" "second tm < 60"
  shows "0 \<le> timedelta tm \<and> timedelta tm < day_ns"
proof -
  have "int (hour tm) * 3600 + int (minute tm) * 60 + int (second tm) < 86400"
    using assms by linarith
  then show ?thesis by (simp add: timedelta_def day_ns_def)
qed

section \<open>Loading and preparing: steps 1 to 4\<close>


lemma load_subset: "(i, r) \<in> set (load t) \<Longrightarrow> i < length (rows t) \<and> rows t ! i = r"
  by (auto simp: load_def Let_def in_set_enumerate_eq split: if_splits)

lemma load_labels: "sorted (map fst (load t)) \<and> distinct (map fst (load t))"
  by (auto simp: load_def Let_def map_fst_enumerate intro: sorted_filter distinct_map_filter)


lemma normalize_flight_dt_Inr:
  "normalize_flight_dt to_dt df = Inr d \<Longrightarrow>
     d = map (\<lambda>(i, r). (i, set_flight_dt (dt_normalize (coerce (to_dt (map (\<lambda>(i, r). flight_dt r) df) (flight_dt r)))) r)) df"
  by (auto simp: normalize_flight_dt_def Let_def split: if_splits)


lemma handle_blanks_Inr:
  "handle_blanks on_missing df = Inr d \<Longrightarrow>
     d = map (\<lambda>(i, r). (i, if on_missing = ''midnight'' \<and> blank_like r then r\<lparr>lastupdt := ''00:00:00''\<rparr> else r))
           (filter (\<lambda>(i, r). on_missing = ''drop'' \<longrightarrow> \<not> blank_like r) df)"
  by (auto simp: handle_blanks_def split: if_splits intro!: map_idI[symmetric])


lemma prep_row_eq:
  "set_lastupdt (if blank_like c then None else Some (lastupdt c)) c = prep_row to_dt t on_missing raw"
  if "c = (if on_missing = ''midnight'' \<and> blank_like b then b\<lparr>lastupdt := ''00:00:00''\<rparr> else b)"
    and "b = a\<lparr>lastupdt := strip (lastupdt a)\<rparr>"
    and "a = set_flight_dt (dt_normalize (coerce (to_dt (flight_dates t) (flight_dt raw)))) raw"
  unfolding that
  by (auto simp: blank_like_def set_flight_dt_def prep_row_def Let_def set_lastupdt_def blank_tokens_def)

lemma prepared_Inr:
  assumes "prepared to_dt t on_missing = Inr df"
  shows "df = map (\<lambda>(i, raw). (i, prep_row to_dt t on_missing raw))
               (filter (\<lambda>(i, raw). on_missing = ''drop'' \<longrightarrow> strip (lastupdt raw) \<notin> set blank_tokens) (load t))"
proof -
  from assms obtain d1 d2 where
    d1: "normalize_flight_dt to_dt (load t) = Inr d1" and
    d2: "handle_blanks on_missing (clean_lastupdt d1) = Inr d2" and
    df: "df = mark_na d2"
    by (auto simp: prepared_def Let_def split: if_splits sum.splits)
  have "mark_na d2 = map (\<lambda>(i, raw). (i, prep_row to_dt t on_missing raw))
               (filter (\<lambda>(i, raw). on_missing = ''drop'' \<longrightarrow> strip (lastupdt raw) \<notin> set blank_tokens) (load t))"
    unfolding handle_blanks_Inr [OF d2] normalize_flight_dt_Inr [OF d1]
    apply (simp add: mark_na_def clean_lastupdt_def filter_map comp_def split_beta
        flight_dates_def [symmetric] prep_row_eq [OF refl refl refl])
    apply (simp add: case_prod_unfold blank_like_def set_flight_dt_def)
    done
  then show ?thesis using df by simp
qed




lemma prep_row_fields [simp]:
  "flightkey (prep_row to_dt t on_missing raw) = flightkey raw"
  "flightnum (prep_row to_dt t on_missing raw) = flightnum raw"
  "orig_arpt (prep_row to_dt t on_missing raw) = orig_arpt raw"
  "dest_arpt (prep_row to_dt t on_missing raw) = dest_arpt raw"
  "flightstatus (prep_row to_dt t on_missing raw) = flightstatus raw"
  "carrier_code (prep_row to_dt t on_missing raw) = carrier_code raw"
  "flight_dt (prep_row to_dt t on_missing raw) =
     dt_normalize (coerce (to_dt (flight_dates t) (flight_dt raw)))"
  by (simp_all add: prep_row_def Let_def set_lastupdt_def set_flight_dt_def)

lemma prep_row_lastupdt:
  "lastupdt (prep_row to_dt t on_missing raw) =
     (if strip (lastupdt raw) \<in> set blank_tokens
      then (if on_missing = ''midnight'' then Some ''00:00:00'' else None)
      else Some (strip (lastupdt raw)))"
  by (simp add: prep_row_def Let_def set_lastupdt_def set_flight_dt_def blank_tokens_def)


lemma set_lastupdt_fields [simp]:
  "flightkey (set_lastupdt v r) = flightkey r"
  "flight_dt (set_lastupdt v r) = flight_dt r"
  "lastupdt (set_lastupdt v r) = v"
  by (simp_all add: set_lastupdt_def)

lemma dt_normalize_idem [simp]: "dt_normalize (dt_normalize x) = dt_normalize x"
  by (cases x) (simp_all add: dt_normalize_def day_ns_def)

lemma dt_normalize_midnight: "dt_normalize x = Some y \<Longrightarrow> y mod day_ns = 0"
  by (cases x) (auto simp: dt_normalize_def day_ns_def)

lemma ts_add_0 [simp]: "ts_add x 0 = x"
  by (cases x) (simp_all add: ts_add_def)

lemma blank_tokens_no_date: "u \<in> set blank_tokens \<Longrightarrow> \<not> date_re_search u"
proof -
  have "list_all (\<lambda>u. \<not> date_re_search u) blank_tokens" by code_simp
  then show "u \<in> set blank_tokens \<Longrightarrow> \<not> date_re_search u"
    by (simp add: list_all_iff)
qed

lemma midnight_string:
  "''00:00:00'' \<notin> set blank_tokens \<and> \<not> date_re_search ''00:00:00''
   \<and> parse_time_flex (Some ''00:00:00'') = Some midnight_time \<and> timedelta midnight_time = 0"
  by code_simp

text \<open>The classification of a prepared row, from the stripped update field \<open>u\<close> of the
  input row.\<close>

lemma prep_row_class:
  fixes raw :: "(string, string) row"
  defines "u \<equiv> strip (lastupdt raw)"
  shows "no_date (prep_row to_dt t on_missing raw) \<longleftrightarrow>
           (if u \<in> set blank_tokens then on_missing = ''midnight'' else \<not> date_re_search u)"
    and "has_date (prep_row to_dt t on_missing raw) \<longleftrightarrow> date_re_search u"
    and "times_of (prep_row to_dt t on_missing raw) =
           (if u \<in> set blank_tokens
            then (if on_missing = ''midnight'' then Some midnight_time else None)
            else parse_time_flex (Some u))"
  using midnight_string blank_tokens_no_date [of u]
  by (auto simp: no_date_def has_date_def times_of_def prep_row_lastupdt u_def parse_time_flex_def)

section \<open>The resolver: steps 5 to 8\<close>

lemma attach_Inr:
  "attach to_dt idx tm df = Inr b \<Longrightarrow>
     b = map (\<lambda>(i, r). (i, r, if no_date r then last_from_time tm r else last_with_date to_dt df r)) df
     \<and> \<not> list_ex (\<lambda>(i, r). no_date r \<and> tm r = None) df"
  by (auto simp: attach_def split: if_splits)


text \<open>Once rows have been dropped at line 118, the index of \<open>last_from_time\<close> is stale.\<close>

lemma stale_index:
  assumes "bad_rows df \<noteq> []"
  shows "\<not> check_bool_indexer (map fst df)
           (map fst (filter (\<lambda>(i, r). i \<notin> set (map fst (bad_rows df))) df))"
proof -
  from assms obtain i r where ir: "(i, r) \<in> set (bad_rows df)"
    by (cases "bad_rows df") auto
  then have in_df: "i \<in> set (map fst df)"
    by (force simp: bad_rows_def)
  from ir have out: "i \<notin> set (map fst (filter (\<lambda>(i, r). i \<notin> set (map fst (bad_rows df))) df))"
    by force
  from in_df out show ?thesis
    unfolding check_bool_indexer_def list_all_iff by metis
qed

lemma resolve_drop_raises:
  assumes "bad_rows df \<noteq> []" "on_missing \<noteq> ''error''" "on_missing \<noteq> ''midnight''"
  shows "resolve to_dt on_missing df \<noteq> Inr b"
  using stale_index [OF assms(1)] assms by (simp add: resolve_def attach_def Let_def)

text \<open>So under \<open>drop\<close>, and under a policy that is none of the three names, a time-only
  update field that matches no format ends in \<open>IndexingError\<close>, not in a dropped row.\<close>

lemma resolve_drop_IndexingError:
  assumes "bad_rows df \<noteq> []" "on_missing \<noteq> ''error''" "on_missing \<noteq> ''midnight''"
  shows "resolve to_dt on_missing df = Inl IndexingError"
proof -
  let ?df' = "filter (\<lambda>(i, r). i \<notin> set (map fst (bad_rows df))) df"
  have "\<not> list_ex (\<lambda>(i, r). no_date r \<and> times_of r = None) ?df'"
    by (force simp: list_ex_iff bad_rows_def)
  with stale_index [OF assms(1)] assms show ?thesis
    by (simp add: resolve_def attach_def Let_def)
qed

lemma resolve_Inr:
  assumes "resolve to_dt on_missing df = Inr b"
  shows "\<exists>tm. b = map (\<lambda>(i, r). (i, r, if no_date r then last_from_time tm r
                                        else last_with_date to_dt df r)) df
             \<and> \<not> list_ex (\<lambda>(i, r). no_date r \<and> tm r = None) df
             \<and> (bad_rows df = [] \<and> tm = times_of \<or> on_missing = ''midnight'' \<and> tm = times_midnight)"
proof (cases "bad_rows df = []")
  case True
  with assms show ?thesis
    by (auto simp: resolve_def Let_def dest: attach_Inr)
next
  case False
  have ne: "on_missing \<noteq> ''error''"
    using assms False by (auto simp: resolve_def)
  have m: "on_missing = ''midnight''"
    using resolve_drop_raises [OF False ne, of to_dt b] assms by blast
  with assms False show ?thesis
    by (auto simp: resolve_def Let_def dest: attach_Inr)
qed






text \<open>Every row of the batch is a prepared row of the input, and its third component is
  resolved from the row.\<close>

lemma resolved_batch_Inr:
  assumes "resolved_batch to_dt t on_missing = Inr b"
  shows "\<exists>df tm. prepared to_dt t on_missing = Inr df
           \<and> b = map (\<lambda>(i, r). (i, r, if no_date r then last_from_time tm r
                                        else last_with_date to_dt df r)) df
           \<and> \<not> list_ex (\<lambda>(i, r). no_date r \<and> tm r = None) df
           \<and> (bad_rows df = [] \<and> tm = times_of \<or> on_missing = ''midnight'' \<and> tm = times_midnight)"
  using assms resolve_Inr [of to_dt on_missing _ b]
  by (auto simp: resolved_batch_def split: sum.splits)


lemma batch_row_source:
  assumes "resolved_batch to_dt t on_missing = Inr b" "(i, r, p) \<in> set b"
  shows "\<exists>raw. (i, raw) \<in> set (load t) \<and> r = prep_row to_dt t on_missing raw"
proof -
  from resolved_batch_Inr [OF assms(1)] obtain df tm where
    df: "prepared to_dt t on_missing = Inr df" and
    b: "b = map (\<lambda>(i, r). (i, r, if no_date r then last_from_time tm r
                                   else last_with_date to_dt df r)) df"
    by blast
  from assms(2) b have "(i, r) \<in> set df" by auto
  then show ?thesis unfolding prepared_Inr [OF df] by auto
qed

lemma batch_row_kept:
  assumes "resolved_batch to_dt t on_missing = Inr b" "(i, raw) \<in> set (load t)"
    and "on_missing = ''drop'' \<longrightarrow> strip (lastupdt raw) \<notin> set blank_tokens"
  shows "\<exists>p. (i, prep_row to_dt t on_missing raw, p) \<in> set b"
proof -
  from resolved_batch_Inr [OF assms(1)] obtain df tm where
    df: "prepared to_dt t on_missing = Inr df" and
    b: "b = map (\<lambda>(i, r). (i, r, if no_date r then last_from_time tm r
                                   else last_with_date to_dt df r)) df"
    by blast
  from assms(2,3) have "(i, prep_row to_dt t on_missing raw) \<in> set df"
    unfolding prepared_Inr [OF df] by force
  then show ?thesis unfolding b by force
qed

lemma batch_row_value:
  assumes "resolved_batch to_dt t on_missing = Inr b" "(i, r, p) \<in> set b"
  shows "(no_date r \<longrightarrow>
            (case times_of r of
               Some tm \<Rightarrow> p = ts_add (flight_dt r) (timedelta tm)
             | None \<Rightarrow> on_missing = ''midnight'' \<and> p = flight_dt r))
         \<and> (\<not> no_date r \<longrightarrow>
              (\<exists>df. prepared to_dt t on_missing = Inr df \<and> p = last_with_date to_dt df r))"
proof -
  from resolved_batch_Inr [OF assms(1)] obtain df tm where
    df: "prepared to_dt t on_missing = Inr df" and
    b: "b = map (\<lambda>(i, r). (i, r, if no_date r then last_from_time tm r
                                   else last_with_date to_dt df r)) df" and
    ok: "\<not> list_ex (\<lambda>(i, r). no_date r \<and> tm r = None) df" and
    tm: "bad_rows df = [] \<and> tm = times_of \<or> on_missing = ''midnight'' \<and> tm = times_midnight"
    by blast
  from assms(2) b have mem: "(i, r) \<in> set df"
    and p: "p = (if no_date r then last_from_time tm r else last_with_date to_dt df r)"
    by auto
  show ?thesis
  proof (cases "no_date r")
    case False
    with p df show ?thesis by auto
  next
    case True
    from ok mem True have some: "tm r \<noteq> None"
      by (auto simp: list_ex_iff)
    from tm show ?thesis
    proof
      assume "bad_rows df = [] \<and> tm = times_of"
      with some p True show ?thesis
        by (auto simp: last_from_time_def split: option.splits)
    next
      assume "on_missing = ''midnight'' \<and> tm = times_midnight"
      with p True show ?thesis
        by (auto simp: last_from_time_def times_midnight_def midnight_time_def timedelta_def
            split: option.splits)
    qed
  qed
qed

lemma batch_labels:
  assumes "resolved_batch to_dt t on_missing = Inr b"
  shows "sorted (map fst b) \<and> distinct (map fst b)"
proof -
  from resolved_batch_Inr [OF assms] obtain df tm where
    df: "prepared to_dt t on_missing = Inr df" and
    b: "b = map (\<lambda>(i, r). (i, r, if no_date r then last_from_time tm r
                                   else last_with_date to_dt df r)) df"
    by blast
  have "map fst b = map fst df"
    unfolding b by (simp add: comp_def case_prod_unfold)
  also have "\<dots> = map fst (filter (\<lambda>(i, raw). on_missing = ''drop'' \<longrightarrow>
                        strip (lastupdt raw) \<notin> set blank_tokens) (load t))"
    unfolding prepared_Inr [OF df] by (simp add: comp_def case_prod_unfold)
  finally show ?thesis
    using load_labels [of t] by (simp add: sorted_filter distinct_map_filter)
qed




section \<open>The reducer and the projector: steps 9 and 10\<close>

lemma set_drop_duplicates: "set (drop_duplicates seen df) \<subseteq> set df"
  by (induction seen df rule: drop_duplicates.induct) auto

lemma set_keep_latest: "set (keep_latest df) \<subseteq> set df"
  using set_drop_duplicates [of "[]" "sort_values df"] by (simp add: keep_latest_def sort_values_def)

lemma batch_key_simp [simp]: "batch_key (i, r, p) = flightkey r"
  by (simp add: batch_key_def)

lemma sort_values_alt: "sort_values df = sort_key sort_by df"
  by (simp add: sort_values_def sort_by_def [abs_def])

lemma sort_by_key: "sort_by x = sort_by y \<Longrightarrow> batch_key x = batch_key y"
  by (auto simp: sort_by_def batch_key_def split: prod.splits)

lemma drop_duplicates_keys:
  "batch_key ` set (drop_duplicates seen df) = batch_key ` set df - set seen"
  by (induction seen df rule: drop_duplicates.induct) auto

lemma drop_duplicates_distinct: "distinct (map batch_key (drop_duplicates seen df))"
proof (induction seen df rule: drop_duplicates.induct)
  case (1 seen)
  then show ?case by simp
next
  case (2 seen i r p df)
  show ?case
  proof (cases "flightkey r \<in> set seen")
    case True
    with 2 show ?thesis by simp
  next
    case False
    have "batch_key (i, r, p) \<notin> batch_key ` set (drop_duplicates (flightkey r # seen) df)"
      unfolding drop_duplicates_keys by simp
    with False 2 show ?thesis by simp
  qed
qed

lemma drop_duplicates_first:
  "x \<in> set (drop_duplicates seen df) \<Longrightarrow>
     \<exists>ps qs. df = ps @ x # qs \<and> batch_key x \<notin> batch_key ` set ps"
proof (induction seen df rule: drop_duplicates.induct)
  case (1 seen)
  then show ?case by simp
next
  case (2 seen i r p df)
  show ?case
  proof (cases "flightkey r \<in> set seen")
    case True
    with 2 have x: "x \<in> set (drop_duplicates seen df)" by simp
    with 2 True obtain ps qs where s: "df = ps @ x # qs" "batch_key x \<notin> batch_key ` set ps"
      by blast
    from x have "batch_key x \<notin> set seen"
      using drop_duplicates_keys [of seen df] by blast
    with True have "batch_key x \<noteq> batch_key (i, r, p)" by auto
    with s have "(i, r, p) # df = ((i, r, p) # ps) @ x # qs
        \<and> batch_key x \<notin> batch_key ` set ((i, r, p) # ps)" by simp
    then show ?thesis by blast
  next
    case False
    show ?thesis
    proof (cases "x = (i, r, p)")
      case True
      then have "(i, r, p) # df = [] @ x # df \<and> batch_key x \<notin> batch_key ` set []" by simp
      then show ?thesis by blast
    next
      case ne: False
      with 2 False have x: "x \<in> set (drop_duplicates (flightkey r # seen) df)" by simp
      with 2 False obtain ps qs where s: "df = ps @ x # qs" "batch_key x \<notin> batch_key ` set ps"
        by blast
      from x have "batch_key x \<notin> set (flightkey r # seen)"
        using drop_duplicates_keys [of "flightkey r # seen" df] by blast
      then have "batch_key x \<noteq> batch_key (i, r, p)" by auto
      with s have "(i, r, p) # df = ((i, r, p) # ps) @ x # qs
          \<and> batch_key x \<notin> batch_key ` set ((i, r, p) # ps)" by simp
      then show ?thesis by blast
    qed
  qed
qed

lemma sort_rank_le:
  "sort_rank p \<le> sort_rank p' \<longleftrightarrow> (p' = None \<or> (\<exists>x y. p' = Some x \<and> p = Some y \<and> x \<le> y))"
  by (cases p; cases p') (auto simp: sort_rank_def)

lemma sort_rank_inj: "sort_rank p = sort_rank p' \<longleftrightarrow> p = p'"
  by (cases p; cases p') (auto simp: sort_rank_def)

text \<open>The row kept for a key is the first of the sorted frame with that key: no row of the
  key sorts before it, and of the rows that sort equal it is the first of the batch.\<close>

lemma keep_latest_best:
  assumes x: "x \<in> set (keep_latest df)" and y: "y \<in> set df" and k: "batch_key y = batch_key x"
  shows "sort_by x \<le> sort_by y"
proof -
  from x obtain ps qs where s: "sort_key sort_by df = ps @ x # qs"
    and ps: "batch_key x \<notin> batch_key ` set ps"
    unfolding keep_latest_def sort_values_alt by (blast dest: drop_duplicates_first)
  have "sorted (map sort_by (sort_key sort_by df))" by (rule sorted_sort_key)
  with s have le: "\<forall>z \<in> set qs. sort_by x \<le> sort_by z"
    by (simp add: sorted_append)
  from y have "y \<in> set (sort_key sort_by df)" by simp
  moreover from ps k have "y \<notin> set ps" by (metis imageI)
  ultimately have "y = x \<or> y \<in> set qs" using s by auto
  with le show ?thesis by auto
qed

lemma keep_latest_first:
  assumes x: "x \<in> set (keep_latest df)" and y: "y \<in> set df" and k: "sort_by y = sort_by x"
    and srt: "sorted (map fst df)"
  shows "fst x \<le> fst y"
proof -
  from x obtain ps qs where s: "sort_key sort_by df = ps @ x # qs"
    and ps: "batch_key x \<notin> batch_key ` set ps"
    unfolding keep_latest_def sort_values_alt by (blast dest: drop_duplicates_first)
  have "sort_by z \<noteq> sort_by x" if "z \<in> set ps" for z
    using that ps sort_by_key [of z x] by (metis imageI)
  then have none: "filter (\<lambda>z. sort_by z = sort_by x) ps = []"
    by (simp add: filter_empty_conv)
  have "filter (\<lambda>z. sort_by z = sort_by x) df = filter (\<lambda>z. sort_by z = sort_by x) (sort_key sort_by df)"
    by (rule sort_key_stable [symmetric])
  also have "\<dots> = x # filter (\<lambda>z. sort_by z = sort_by x) qs"
    unfolding s using none by simp
  finally obtain us vs where df: "df = us @ x # vs" and us: "\<forall>u \<in> set us. sort_by u \<noteq> sort_by x"
    unfolding filter_eq_Cons_iff by blast
  from y df us k have "y = x \<or> y \<in> set vs" by auto
  moreover from srt df have "\<forall>v \<in> set vs. fst x \<le> fst v"
    by (simp add: sorted_append)
  ultimately show ?thesis by auto
qed

lemma keep_latest_keys: "batch_key ` set (keep_latest df) = batch_key ` set df"
  using drop_duplicates_keys [of "[]" "sort_values df"]
  by (simp add: keep_latest_def sort_values_def)

lemma keep_latest_distinct: "distinct (map batch_key (keep_latest df))"
  by (simp add: keep_latest_def drop_duplicates_distinct)

lemma sorted_drop_duplicates:
  "sorted (map batch_key df) \<Longrightarrow> sorted (map batch_key (drop_duplicates seen df))"
proof (induction seen df rule: drop_duplicates.induct)
  case (1 seen)
  then show ?case by simp
next
  case (2 seen i r p df)
  then show ?case
    using set_drop_duplicates [of "flightkey r # seen" df] by auto
qed

lemma sort_by_mono: "sort_by x \<le> sort_by y \<Longrightarrow> batch_key x \<le> batch_key y"
  by (auto simp: sort_by_def batch_key_def less_eq_prod_def split: prod.splits)

lemma sorted_sort_by: "sorted (map sort_by xs) \<Longrightarrow> sorted (map batch_key xs)"
  by (induction xs) (auto dest: sort_by_mono)

lemma keep_latest_sorted: "sorted (map batch_key (keep_latest df))"
proof -
  have "sorted (map sort_by (sort_key sort_by df))" by (rule sorted_sort_key)
  then have "sorted (map batch_key (sort_key sort_by df))"
    by (rule sorted_sort_by)
  then show ?thesis
    unfolding keep_latest_def sort_values_alt by (rule sorted_drop_duplicates)
qed

lemma output_row_source:
  assumes "most_recent_flights_csv to_dt t on_missing = Inr out" "orow \<in> set (out_rows out)"
  shows "\<exists>b i r p. resolved_batch to_dt t on_missing = Inr b \<and> (i, r, p) \<in> set (keep_latest b)
           \<and> (i, r, p) \<in> set b \<and> orow = set_lastupdt p r"
proof -
  from assms(1) obtain b where
    b: "resolved_batch to_dt t on_missing = Inr b" and
    out: "out = project (columns t) (keep_latest b)"
    by (auto simp: most_recent_flights_csv_def split: sum.splits)
  from assms(2) out obtain i r p where "(i, r, p) \<in> set (keep_latest b)" "orow = set_lastupdt p r"
    by (auto simp: project_def)
  with b set_keep_latest [of b] show ?thesis by blast
qed




section \<open>Loading\<close>



text \<open>
  C8. Every \<open>flight_dt\<close> of the result is the value that \<open>to_datetime\<close> gave for a loaded row
  of the same flight key, normalised to midnight at line 72 and not changed afterwards:
  normalising it again changes nothing, and a value that is a timestamp is a whole number of
  days (a string that \<open>to_datetime\<close> reads as \<open>NaT\<close> stays \<open>NaT\<close>).
\<close>

theorem flight_dt_stays_normalized:
  assumes "most_recent_flights_csv to_dt t on_missing = Inr out" "orow \<in> set (out_rows out)"
  shows "dt_normalize (flight_dt orow) = flight_dt orow
         \<and> (\<forall>x. flight_dt orow = Some x \<longrightarrow> x mod day_ns = 0)
         \<and> (\<exists>(i, raw) \<in> set (load t).
               flightkey orow = flightkey raw
               \<and> flight_dt orow = dt_normalize (coerce (to_dt (flight_dates t) (flight_dt raw))))"
proof -
  from output_row_source [OF assms] obtain b i r p where
    b: "resolved_batch to_dt t on_missing = Inr b" and m: "(i, r, p) \<in> set b"
    and oe: "orow = set_lastupdt p r"
    by blast
  from batch_row_source [OF b m] obtain raw where
    raw: "(i, raw) \<in> set (load t)" "r = prep_row to_dt t on_missing raw"
    by blast
  have fd: "flight_dt orow = dt_normalize (coerce (to_dt (flight_dates t) (flight_dt raw)))"
    and fk: "flightkey orow = flightkey raw"
    using oe raw(2) by simp_all
  from fd have "dt_normalize (flight_dt orow) = flight_dt orow" by simp
  moreover from fd have "\<forall>x. flight_dt orow = Some x \<longrightarrow> x mod day_ns = 0"
    using dt_normalize_midnight by metis
  moreover from raw(1) fd fk have "\<exists>(i, raw) \<in> set (load t).
               flightkey orow = flightkey raw
               \<and> flight_dt orow = dt_normalize (coerce (to_dt (flight_dates t) (flight_dt raw)))"
    by blast
  ultimately show ?thesis by blast
qed

theorem flight_dt_stays_normalized_witness:
  "most_recent_flights_csv iso_to_datetime ex_full ''drop'' =
     Inr (project required
            [(1, prep_row iso_to_datetime ex_full ''drop'' (rows ex_full ! 1),
              coerce (iso_to_datetime [] ''2019-01-01 19:49:00'')),
             (2, prep_row iso_to_datetime ex_full ''drop'' (rows ex_full ! 2),
              coerce (iso_to_datetime [] ''2019-01-02 10:00:00''))])
   \<and> set_lastupdt (coerce (iso_to_datetime [] ''2019-01-01 19:49:00''))
         (prep_row iso_to_datetime ex_full ''drop'' (rows ex_full ! 1))
       \<in> set (out_rows (project required
            [(1, prep_row iso_to_datetime ex_full ''drop'' (rows ex_full ! 1),
              coerce (iso_to_datetime [] ''2019-01-01 19:49:00'')),
             (2, prep_row iso_to_datetime ex_full ''drop'' (rows ex_full ! 2),
              coerce (iso_to_datetime [] ''2019-01-02 10:00:00''))]))
   \<and> flight_dt (set_lastupdt (coerce (iso_to_datetime [] ''2019-01-01 19:49:00''))
         (prep_row iso_to_datetime ex_full ''drop'' (rows ex_full ! 1)))
       = coerce (iso_to_datetime [] ''2019-01-01'')
   \<and> dt_normalize (coerce (iso_to_datetime [] ''2019-01-01'')) = coerce (iso_to_datetime [] ''2019-01-01'')"
proof -
  let ?out = "project required
            [(1, prep_row iso_to_datetime ex_full ''drop'' (rows ex_full ! 1),
              coerce (iso_to_datetime [] ''2019-01-01 19:49:00'')),
             (2, prep_row iso_to_datetime ex_full ''drop'' (rows ex_full ! 2),
              coerce (iso_to_datetime [] ''2019-01-02 10:00:00''))]"
  let ?o = "set_lastupdt (coerce (iso_to_datetime [] ''2019-01-01 19:49:00''))
         (prep_row iso_to_datetime ex_full ''drop'' (rows ex_full ! 1))"
  have out: "most_recent_flights_csv iso_to_datetime ex_full ''drop'' = Inr ?out" by code_simp
  have mem: "?o \<in> set (out_rows ?out)" by (simp add: project_def)
  have fd: "flight_dt ?o = coerce (iso_to_datetime [] ''2019-01-01'')" by code_simp
  from flight_dt_stays_normalized [OF out mem] have "dt_normalize (flight_dt ?o) = flight_dt ?o"
    by blast
  with out mem fd show ?thesis by simp
qed

section \<open>Resolution of the update field\<close>

text \<open>
  C4. Under every policy, a row of the resolved batch that is time-only and whose update
  field parses as the clock time \<open>tm\<close> has the resolved update \<open>flight_dt + tm\<close>, where
  \<open>flight_dt\<close> is the normalised flight date of the same input row: the same calendar day,
  with \<open>tm\<close> as its time of day. No clock is read: the pipeline is a function of the table,
  the policy and \<open>to_datetime\<close>. In particular the row \<open>07:30:00 PM\<close> of 2019-01-03
  resolves to 2019-01-03 19:30:00.
\<close>

theorem time_only_resolves_on_flight_date:
  assumes "resolved_batch to_dt t on_missing = Inr b" "(i, r, p) \<in> set b"
    and "no_date r" "parse_time_flex (lastupdt r) = Some tm"
  shows "p = ts_add (flight_dt r) (timedelta tm)
         \<and> (\<exists>raw. (i, raw) \<in> set (load t) \<and> rows t ! i = raw
                \<and> flight_dt r = dt_normalize (coerce (to_dt (flight_dates t) (flight_dt raw))))
         \<and> (\<forall>d. flight_dt r = Some d \<longrightarrow>
                d mod day_ns = 0 \<and> p = Some (d + timedelta tm)
                \<and> (d + timedelta tm) div day_ns = d div day_ns
                \<and> (d + timedelta tm) mod day_ns = timedelta tm)"
proof -
  from batch_row_value [OF assms(1,2)] assms(3,4)
  have p: "p = ts_add (flight_dt r) (timedelta tm)"
    by (simp add: times_of_def)
  from batch_row_source [OF assms(1,2)] obtain raw where
    raw: "(i, raw) \<in> set (load t)" "r = prep_row to_dt t on_missing raw"
    by blast
  then have src: "\<exists>raw. (i, raw) \<in> set (load t) \<and> rows t ! i = raw
                \<and> flight_dt r = dt_normalize (coerce (to_dt (flight_dates t) (flight_dt raw)))"
    using load_subset by fastforce
  from parse_time_flex_bounds [OF assms(4)]
  have td: "0 \<le> timedelta tm" "timedelta tm < day_ns"
    using timedelta_range by blast+
  have "\<forall>d. flight_dt r = Some d \<longrightarrow>
                d mod day_ns = 0 \<and> p = Some (d + timedelta tm)
                \<and> (d + timedelta tm) div day_ns = d div day_ns
                \<and> (d + timedelta tm) mod day_ns = timedelta tm"
  proof (intro allI impI)
    fix d assume d: "flight_dt r = Some d"
    with raw(2) have m: "d mod day_ns = 0"
      using dt_normalize_midnight by simp
    have small: "timedelta tm div day_ns = 0" "timedelta tm mod day_ns = timedelta tm"
      using td by simp_all
    have "(d + timedelta tm) div day_ns = d div day_ns"
      using m small by (simp add: div_add1_eq)
    moreover have "(d + timedelta tm) mod day_ns = timedelta tm"
      using m small by (simp add: mod_add_eq [symmetric])
    ultimately show "d mod day_ns = 0 \<and> p = Some (d + timedelta tm)
                \<and> (d + timedelta tm) div day_ns = d div day_ns
                \<and> (d + timedelta tm) mod day_ns = timedelta tm"
      using m p d by (simp add: ts_add_def)
  qed
  with p src show ?thesis by blast
qed

theorem time_only_resolves_on_flight_date_witness:
  "resolved_batch iso_to_datetime ex_time_only ''drop'' =
     Inr [(0, prep_row iso_to_datetime ex_time_only ''drop'' (rows ex_time_only ! 0),
              coerce (iso_to_datetime [] ''2019-01-03 19:30:00'')),
          (1, prep_row iso_to_datetime ex_time_only ''drop'' (rows ex_time_only ! 1),
              coerce (iso_to_datetime [] ''2019-01-03 20:30:00''))]
   \<and> lastupdt (prep_row iso_to_datetime ex_time_only ''drop'' (rows ex_time_only ! 0)) = Some ''07:30:00 PM''
   \<and> flight_dt (prep_row iso_to_datetime ex_time_only ''drop'' (rows ex_time_only ! 0))
       = coerce (iso_to_datetime [] ''2019-01-03'')
   \<and> no_date (prep_row iso_to_datetime ex_time_only ''drop'' (rows ex_time_only ! 0))
   \<and> parse_time_flex (Some ''07:30:00 PM'') = Some \<lparr>hour = 19, minute = 30, second = 0\<rparr>
   \<and> coerce (iso_to_datetime [] ''2019-01-03 19:30:00'')
       = ts_add (coerce (iso_to_datetime [] ''2019-01-03''))
           (timedelta \<lparr>hour = 19, minute = 30, second = 0\<rparr>)"
proof -
  let ?r = "prep_row iso_to_datetime ex_time_only ''drop'' (rows ex_time_only ! 0)"
  let ?p = "coerce (iso_to_datetime [] ''2019-01-03 19:30:00'')"
  have b: "resolved_batch iso_to_datetime ex_time_only ''drop'' =
     Inr [(0, ?r, ?p),
          (1, prep_row iso_to_datetime ex_time_only ''drop'' (rows ex_time_only ! 1),
              coerce (iso_to_datetime [] ''2019-01-03 20:30:00''))]"
    by code_simp
  have u: "lastupdt ?r = Some ''07:30:00 PM''" by code_simp
  have d: "flight_dt ?r = coerce (iso_to_datetime [] ''2019-01-03'')" by code_simp
  have n: "no_date ?r" by code_simp
  have tm: "parse_time_flex (lastupdt ?r) = Some \<lparr>hour = 19, minute = 30, second = 0\<rparr>" by code_simp
  from time_only_resolves_on_flight_date [OF b _ n tm, of 0 ?p]
  have "?p = ts_add (flight_dt ?r) (timedelta \<lparr>hour = 19, minute = 30, second = 0\<rparr>)"
    by simp
  with b u d n tm show ?thesis by simp
qed



text \<open>
  C1, as amended. The missing-data policy is for update fields without a date (lines 43
  to 46 of the source). Under every policy, when the resolver returns a batch, a loaded row
  whose stripped update field has the date pattern and is not parsed to a timestamp by
  \<open>to_datetime\<close> (\<open>errors="coerce"\<close>) is in the batch, with its update field unchanged and
  an absent (\<open>NaT\<close>) resolved update: it is not dropped, not set to midnight, and raises
  no error.
\<close>

theorem dated_value_bypasses_policy:
  assumes "prepared to_dt t on_missing = Inr df" "resolved_batch to_dt t on_missing = Inr b"
    and "(i, raw) \<in> set (load t)" "date_re_search (strip (lastupdt raw))"
    and "coerce (to_dt (dated_values df) (strip (lastupdt raw))) = None"
  shows "\<exists>r. (i, r, None) \<in> set b
           \<and> lastupdt r = Some (strip (lastupdt raw))
           \<and> flightkey r = flightkey raw
           \<and> flight_dt r = dt_normalize (coerce (to_dt (flight_dates t) (flight_dt raw)))"
proof -
  let ?r = "prep_row to_dt t on_missing raw"
  from assms(4) blank_tokens_no_date have nb: "strip (lastupdt raw) \<notin> set blank_tokens"
    by blast
  with batch_row_kept [OF assms(2,3)] obtain p where p: "(i, ?r, p) \<in> set b" by blast
  from nb have u: "lastupdt ?r = Some (strip (lastupdt raw))"
    by (simp add: prep_row_lastupdt)
  from assms(4) nb have "\<not> no_date ?r" by (simp add: prep_row_class)
  with batch_row_value [OF assms(2) p] assms(1) have "p = last_with_date to_dt df ?r"
    by auto
  with u assms(4,5) have "p = None" by (simp add: last_with_date_def)
  with p u show ?thesis by (intro exI [of _ ?r]) simp
qed

theorem dated_value_bypasses_policy_witness:
  "prepared iso_to_datetime ex_bad_date ''drop'' =
      Inr [(0, prep_row iso_to_datetime ex_bad_date ''drop'' (rows ex_bad_date ! 0)),
           (1, prep_row iso_to_datetime ex_bad_date ''drop'' (rows ex_bad_date ! 1))]
   \<and> (0, rows ex_bad_date ! 0) \<in> set (load ex_bad_date)
   \<and> strip (lastupdt (rows ex_bad_date ! 0)) = ''2019-13-45 10:00:00''
   \<and> date_re_search ''2019-13-45 10:00:00''
   \<and> (\<exists>b r. resolved_batch iso_to_datetime ex_bad_date ''drop'' = Inr b
          \<and> (0, r, None) \<in> set b
          \<and> lastupdt r = Some ''2019-13-45 10:00:00''
          \<and> flightkey r = ''K7'')"
proof -
  let ?df = "[(0, prep_row iso_to_datetime ex_bad_date ''drop'' (rows ex_bad_date ! 0)),
           (1, prep_row iso_to_datetime ex_bad_date ''drop'' (rows ex_bad_date ! 1))]"
  let ?b = "[(0, prep_row iso_to_datetime ex_bad_date ''drop'' (rows ex_bad_date ! 0), None),
             (1, prep_row iso_to_datetime ex_bad_date ''drop'' (rows ex_bad_date ! 1),
                 coerce (iso_to_datetime [] ''2019-01-02 10:00:00''))]"
  have df: "prepared iso_to_datetime ex_bad_date ''drop'' = Inr ?df" by code_simp
  have b: "resolved_batch iso_to_datetime ex_bad_date ''drop'' = Inr ?b" by code_simp
  have ld: "(0, rows ex_bad_date ! 0) \<in> set (load ex_bad_date)" by code_simp
  have u: "strip (lastupdt (rows ex_bad_date ! 0)) = ''2019-13-45 10:00:00''" by code_simp
  have dr: "date_re_search ''2019-13-45 10:00:00''" by code_simp
  have dr': "date_re_search (strip (lastupdt (rows ex_bad_date ! 0)))" unfolding u by (rule dr)
  have fail: "coerce (iso_to_datetime (dated_values ?df) (strip (lastupdt (rows ex_bad_date ! 0)))) = None"
    by code_simp
  have fk: "flightkey (rows ex_bad_date ! 0) = ''K7''" by code_simp
  have ex: "\<exists>b r. resolved_batch iso_to_datetime ex_bad_date ''drop'' = Inr b
          \<and> (0, r, None) \<in> set b
          \<and> lastupdt r = Some ''2019-13-45 10:00:00''
          \<and> flightkey r = ''K7''"
    using b dated_value_bypasses_policy [OF df b ld dr' fail, unfolded u fk]
    by - (elim exE conjE, intro exI conjI, assumption+)
  show ?thesis
    by (intro conjI) (rule df ld u dr ex)+
qed

text \<open>
  C1 as stated fails: the update field \<open>2019-13-45 10:00:00\<close> has the date pattern and is no
  date. Under \<open>drop\<close> its row stays in the batch; under \<open>midnight\<close> its resolved update is
  \<open>NaT\<close>, not the flight date 2019-01-07 at midnight; under \<open>error\<close> the resolver returns a
  batch.
\<close>

theorem dated_value_counterexample:
  "map (\<lambda>(i, raw). strip (lastupdt raw)) (load ex_bad_date) =
      [''2019-13-45 10:00:00'', ''2019-01-02 10:00:00'']
   \<and> date_re_search ''2019-13-45 10:00:00''
   \<and> iso_to_datetime [''2019-13-45 10:00:00'', ''2019-01-02 10:00:00''] ''2019-13-45 10:00:00''
       = Unparseable
   \<and> resolved_batch iso_to_datetime ex_bad_date ''drop'' =
        Inr [(0, prep_row iso_to_datetime ex_bad_date ''drop'' (rows ex_bad_date ! 0), None),
             (1, prep_row iso_to_datetime ex_bad_date ''drop'' (rows ex_bad_date ! 1),
                 coerce (iso_to_datetime [] ''2019-01-02 10:00:00''))]
   \<and> resolved_batch iso_to_datetime ex_bad_date ''midnight'' =
        Inr [(0, prep_row iso_to_datetime ex_bad_date ''midnight'' (rows ex_bad_date ! 0), None),
             (1, prep_row iso_to_datetime ex_bad_date ''midnight'' (rows ex_bad_date ! 1),
                 coerce (iso_to_datetime [] ''2019-01-02 10:00:00''))]
   \<and> flight_dt (prep_row iso_to_datetime ex_bad_date ''midnight'' (rows ex_bad_date ! 0))
       = Some 1546819200000000000
   \<and> iso_to_datetime [] ''2019-01-07 00:00:00'' = Timestamp 1546819200000000000
   \<and> resolved_batch iso_to_datetime ex_bad_date ''error'' =
        Inr [(0, prep_row iso_to_datetime ex_bad_date ''error'' (rows ex_bad_date ! 0), None),
             (1, prep_row iso_to_datetime ex_bad_date ''error'' (rows ex_bad_date ! 1),
                 coerce (iso_to_datetime [] ''2019-01-02 10:00:00''))]"
proof -
  have a: "map (\<lambda>(i, raw). strip (lastupdt raw)) (load ex_bad_date) =
      [''2019-13-45 10:00:00'', ''2019-01-02 10:00:00'']" by code_simp
  have b: "date_re_search ''2019-13-45 10:00:00''" by code_simp
  have c: "iso_to_datetime [''2019-13-45 10:00:00'', ''2019-01-02 10:00:00''] ''2019-13-45 10:00:00''
       = Unparseable" by code_simp
  have d: "resolved_batch iso_to_datetime ex_bad_date ''drop'' =
        Inr [(0, prep_row iso_to_datetime ex_bad_date ''drop'' (rows ex_bad_date ! 0), None),
             (1, prep_row iso_to_datetime ex_bad_date ''drop'' (rows ex_bad_date ! 1),
                 coerce (iso_to_datetime [] ''2019-01-02 10:00:00''))]" by code_simp
  have e: "resolved_batch iso_to_datetime ex_bad_date ''midnight'' =
        Inr [(0, prep_row iso_to_datetime ex_bad_date ''midnight'' (rows ex_bad_date ! 0), None),
             (1, prep_row iso_to_datetime ex_bad_date ''midnight'' (rows ex_bad_date ! 1),
                 coerce (iso_to_datetime [] ''2019-01-02 10:00:00''))]" by code_simp
  have f: "flight_dt (prep_row iso_to_datetime ex_bad_date ''midnight'' (rows ex_bad_date ! 0))
       = Some 1546819200000000000" by code_simp
  have g: "iso_to_datetime [] ''2019-01-07 00:00:00'' = Timestamp 1546819200000000000" by code_simp
  have h: "resolved_batch iso_to_datetime ex_bad_date ''error'' =
        Inr [(0, prep_row iso_to_datetime ex_bad_date ''error'' (rows ex_bad_date ! 0), None),
             (1, prep_row iso_to_datetime ex_bad_date ''error'' (rows ex_bad_date ! 1),
                 coerce (iso_to_datetime [] ''2019-01-02 10:00:00''))]" by code_simp
  show ?thesis
    by (intro conjI) (rule a b c d e f g h)+
qed






section \<open>Reduction to one row per flight key\<close>

text \<open>
  C2. Whenever the resolver returns a batch, the pipeline returns a result with exactly one
  row for every flight key of the batch and no other key (so a key all of whose rows were
  dropped is absent), in the order of the keys. The row of a key is a row of the batch,
  at its position \<open>i\<close> of the input, and no row of the batch with the same key has a
  greater resolved update (\<open>NaT\<close> counting as less than every instant); of the rows with
  the same key and the same resolved update it is the first of the input.
\<close>

theorem one_latest_row_per_key:
  assumes "resolved_batch to_dt t on_missing = Inr b"
  shows "\<exists>out. most_recent_flights_csv to_dt t on_missing = Inr out
     \<and> distinct (map flightkey (out_rows out))
     \<and> sorted (map flightkey (out_rows out))
     \<and> set (map flightkey (out_rows out)) = set (map (\<lambda>(i, r, p). flightkey r) b)
     \<and> (\<forall>orow \<in> set (out_rows out).
          \<exists>(i, r, p) \<in> set b.
            orow = set_lastupdt p r \<and> i < length (rows t) \<and> flightkey r = flightkey (rows t ! i)
            \<and> (\<forall>(j, r', p') \<in> set b.
                  flightkey r' = flightkey r \<longrightarrow>
                    (p' = None \<or> (\<exists>x y. p' = Some x \<and> p = Some y \<and> x \<le> y))
                    \<and> (p' = p \<longrightarrow> i \<le> j)
                    \<and> (j = i \<longrightarrow> r' = r \<and> p' = p)))"
proof -
  let ?out = "project (columns t) (keep_latest b)"
  have res: "most_recent_flights_csv to_dt t on_missing = Inr ?out"
    using assms by (simp add: most_recent_flights_csv_def)
  have keys: "map flightkey (out_rows ?out) = map batch_key (keep_latest b)"
    by (simp add: project_def comp_def case_prod_unfold batch_key_def)
  have d: "distinct (map flightkey (out_rows ?out))"
    unfolding keys by (rule keep_latest_distinct)
  have s: "sorted (map flightkey (out_rows ?out))"
    unfolding keys by (rule keep_latest_sorted)
  have "set (map batch_key (keep_latest b)) = set (map batch_key b)"
    using keep_latest_keys [of b] by simp
  then have k: "set (map flightkey (out_rows ?out)) = set (map (\<lambda>(i, r, p). flightkey r) b)"
    unfolding keys by (simp add: batch_key_def [abs_def])
  from batch_labels [OF assms] have srt: "sorted (map fst b)" and dst: "distinct (map fst b)"
    by blast+
  have best: "\<exists>(i, r, p) \<in> set b.
            orow = set_lastupdt p r \<and> i < length (rows t) \<and> flightkey r = flightkey (rows t ! i)
            \<and> (\<forall>(j, r', p') \<in> set b.
                  flightkey r' = flightkey r \<longrightarrow>
                    (p' = None \<or> (\<exists>x y. p' = Some x \<and> p = Some y \<and> x \<le> y))
                    \<and> (p' = p \<longrightarrow> i \<le> j)
                    \<and> (j = i \<longrightarrow> r' = r \<and> p' = p))"
    if "orow \<in> set (out_rows ?out)" for orow
  proof -
    from that obtain i r p where x: "(i, r, p) \<in> set (keep_latest b)" and o: "orow = set_lastupdt p r"
      by (auto simp: project_def)
    from x set_keep_latest [of b] have xb: "(i, r, p) \<in> set b" by blast
    from batch_row_source [OF assms xb] obtain raw where
      raw: "(i, raw) \<in> set (load t)" "r = prep_row to_dt t on_missing raw"
      by blast
    from load_subset [OF raw(1)] raw(2)
    have src: "i < length (rows t)" "flightkey r = flightkey (rows t ! i)" by simp_all
    have cmp: "(p' = None \<or> (\<exists>x y. p' = Some x \<and> p = Some y \<and> x \<le> y))
                    \<and> (p' = p \<longrightarrow> i \<le> j) \<and> (j = i \<longrightarrow> r' = r \<and> p' = p)"
      if y: "(j, r', p') \<in> set b" and fk: "flightkey r' = flightkey r" for j r' p'
    proof -
      from keep_latest_best [OF x y] fk have "sort_by (i, r, p) \<le> sort_by (j, r', p')"
        by simp
      with fk have "sort_rank p \<le> sort_rank p'"
        by (simp add: sort_by_def less_eq_prod_def)
      then have a: "p' = None \<or> (\<exists>x y. p' = Some x \<and> p = Some y \<and> x \<le> y)"
        by (simp add: sort_rank_le)
      have b1: "i \<le> j" if "p' = p"
        using keep_latest_first [OF x y _ srt] that fk by (simp add: sort_by_def)
      have c: "r' = r \<and> p' = p" if "j = i"
        using dst xb y that by (auto dest: eq_key_imp_eq_value [of b i "(r', p')" "(r, p)"])
      from a b1 c show ?thesis by blast
    qed
    from xb o src cmp show ?thesis by blast
  qed
  from res d s k best show ?thesis by blast
qed

theorem one_latest_row_per_key_witness:
  "resolved_batch iso_to_datetime ex_ties ''drop'' =
     Inr [(0, prep_row iso_to_datetime ex_ties ''drop'' (rows ex_ties ! 0),
              coerce (iso_to_datetime [] ''2019-01-02 10:00:00'')),
          (1, prep_row iso_to_datetime ex_ties ''drop'' (rows ex_ties ! 1),
              coerce (iso_to_datetime [] ''2019-01-01 19:48:00'')),
          (2, prep_row iso_to_datetime ex_ties ''drop'' (rows ex_ties ! 2),
              coerce (iso_to_datetime [] ''2019-01-01 19:48:00'')),
          (3, prep_row iso_to_datetime ex_ties ''drop'' (rows ex_ties ! 3),
              coerce (iso_to_datetime [] ''2019-01-01 19:00:00''))]
   \<and> most_recent_flights_csv iso_to_datetime ex_ties ''drop'' =
       Inr (project required
             [(1, prep_row iso_to_datetime ex_ties ''drop'' (rows ex_ties ! 1),
                  coerce (iso_to_datetime [] ''2019-01-01 19:48:00'')),
              (0, prep_row iso_to_datetime ex_ties ''drop'' (rows ex_ties ! 0),
                  coerce (iso_to_datetime [] ''2019-01-02 10:00:00''))])
   \<and> distinct (map flightkey (out_rows (project required
             [(1, prep_row iso_to_datetime ex_ties ''drop'' (rows ex_ties ! 1),
                  coerce (iso_to_datetime [] ''2019-01-01 19:48:00'')),
              (0, prep_row iso_to_datetime ex_ties ''drop'' (rows ex_ties ! 0),
                  coerce (iso_to_datetime [] ''2019-01-02 10:00:00''))])))
   \<and> map flightkey (map snd (load ex_ties)) = [''K2'', ''K1'', ''K1'', ''K1'', ''K4'']
   \<and> map flightstatus (map snd (load ex_ties)) = [''Boarding'', ''Boarding'', ''In'', ''Out'', ''Boarding'']"
proof -
  let ?b = "[(0, prep_row iso_to_datetime ex_ties ''drop'' (rows ex_ties ! 0),
              coerce (iso_to_datetime [] ''2019-01-02 10:00:00'')),
          (1, prep_row iso_to_datetime ex_ties ''drop'' (rows ex_ties ! 1),
              coerce (iso_to_datetime [] ''2019-01-01 19:48:00'')),
          (2, prep_row iso_to_datetime ex_ties ''drop'' (rows ex_ties ! 2),
              coerce (iso_to_datetime [] ''2019-01-01 19:48:00'')),
          (3, prep_row iso_to_datetime ex_ties ''drop'' (rows ex_ties ! 3),
              coerce (iso_to_datetime [] ''2019-01-01 19:00:00''))]"
  let ?o = "project required
             [(1, prep_row iso_to_datetime ex_ties ''drop'' (rows ex_ties ! 1),
                  coerce (iso_to_datetime [] ''2019-01-01 19:48:00'')),
              (0, prep_row iso_to_datetime ex_ties ''drop'' (rows ex_ties ! 0),
                  coerce (iso_to_datetime [] ''2019-01-02 10:00:00''))]"
  have b: "resolved_batch iso_to_datetime ex_ties ''drop'' = Inr ?b"
    by code_simp
  have ev: "most_recent_flights_csv iso_to_datetime ex_ties ''drop'' = Inr ?o"
    by code_simp
  have f: "map flightkey (map snd (load ex_ties)) = [''K2'', ''K1'', ''K1'', ''K1'', ''K4'']
   \<and> map flightstatus (map snd (load ex_ties)) = [''Boarding'', ''Boarding'', ''In'', ''Out'', ''Boarding'']"
    by code_simp
  from one_latest_row_per_key [OF b] obtain out where
    out: "most_recent_flights_csv iso_to_datetime ex_ties ''drop'' = Inr out"
    and d: "distinct (map flightkey (out_rows out))"
    by blast
  from out ev have "Inr out = (Inr ?o :: error + out_table)" by (simp only:)
  then have "out = ?o" by (simp only: sum.inject)
  with d have d': "distinct (map flightkey (out_rows ?o))" by (simp only:)
  show ?thesis
    by (intro conjI) (rule b, rule ev, rule d', rule f [THEN conjunct1], rule f [THEN conjunct2])
qed

end
